theory Spec2Isabelle
  imports Main
begin

section \<open>Values handled by the argument parser\<close>

text \<open>
  Modelled from the spec: the token type \<open>ReadItem\<close> and the class \<open>Keyword\<close> are
  imported from \<open>./CommandReader\<close>, which is not among the sources. The spec gives the
  token as a sum: a plain value (a string), a keyword designator, or another atomic kind
  supplied by the tokenizer. The parser tells them apart with
  \<open>typeof item === 'string'\<close> and \<open>item instanceof Keyword\<close>, and reads
  \<open>item.designator\<close> of a keyword. A token of another kind is an object (a room
  reference, a user id), identified here by a label.
\<close>

datatype readItem = Str string | Keyword (designator: string) | Other string

fun isKeyword :: "readItem \<Rightarrow> bool" where
  "isKeyword (Keyword _) = True"
| "isKeyword _ = False"

fun isString :: "readItem \<Rightarrow> bool" where
  "isString (Str _) = True"
| "isString _ = False"

text \<open>
  JavaScript truthiness of a token, as a bare \<open>while (stream.peekItem())\<close> tests it:
  the empty string is falsy, every other string and every object is truthy.
\<close>

fun truthy :: "readItem \<Rightarrow> bool" where
  "truthy (Str s) = (s \<noteq> [])"
| "truthy (Keyword _) = True"
| "truthy (Other _) = True"

text \<open>
  What a call can do besides returning: throw. \<open>TypeError\<close> carries its message
  (for a \<open>TypeError\<close> raised by the engine itself, such as reading a property of
  \<open>undefined\<close>, the message is the engine's wording and only illustrative).
  \<open>ExhaustedStream\<close> is the failure of reading past the end of a stream.
\<close>

datatype exception = TypeError string | ExhaustedStream

datatype 'a completion = Returns 'a | Throws exception

text \<open>
  Modelled from the spec: \<open>CommandResult\<close> and \<open>CommandError\<close> are imported from
  \<open>./Validation\<close>, which is not among the sources. The spec gives a two-variant
  success/failure container; \<open>isOk\<close> and \<open>isErr\<close> test the variant, and the
  \<open>err\<close> of a success is absent (falsy), which is what the test
  \<open>if (result.err)\<close> of the argument-list parser relies on. A \<open>CommandError\<close>
  carries a message.
\<close>

datatype ('ok, 'err) commandResult = Ok 'ok | Err 'err

fun isOk :: "('ok, 'err) commandResult \<Rightarrow> bool" where
  "isOk (Ok _) = True"
| "isOk (Err _) = False"

fun isErr :: "('ok, 'err) commandResult \<Rightarrow> bool" where
  "isErr (Ok _) = False"
| "isErr (Err _) = True"

record commandError =
  message :: string

section \<open>The argument stream\<close>

text \<open>
  Modelled from the spec: \<open>ArgumentStream\<close> extends \<open>SuperCoolStream\<close> of
  \<open>./CommandReader\<close>, which is not among the sources. The spec gives the cursor: a
  token sequence and a zero-based position; \<open>peek\<close> returns the token at the position,
  if any, and does not advance; \<open>read\<close> returns it and advances by one, and fails
  with \<open>ExhaustedStream\<close> when nothing remains. \<open>rest\<close> is in the sources:
  \<open>this.source.slice(this.position)\<close>.
\<close>

record argumentStream =
  source :: "readItem list"
  position :: nat

definition peekItem :: "argumentStream \<Rightarrow> readItem option" where
  "peekItem s = (if position s < length (source s) then Some (source s ! position s) else None)"

definition readItem :: "argumentStream \<Rightarrow> (readItem \<times> argumentStream) completion" where
  "readItem s =
     (case peekItem s of
        None \<Rightarrow> Throws ExhaustedStream
      | Some item \<Rightarrow> Returns (item, s\<lparr>position := Suc (position s)\<rparr>))"

definition ArgumentStream_rest :: "argumentStream \<Rightarrow> readItem list" where
  "ArgumentStream_rest s = drop (position s) (source s)"

text \<open>\<open>new ArgumentStream(readItems)\<close>: the cursor starts at position 0.\<close>

definition new_ArgumentStream :: "readItem list \<Rightarrow> argumentStream" where
  "new_ArgumentStream readItems = \<lparr>source = readItems, position = 0\<rparr>"

section \<open>Presentation types and their registry\<close>

type_synonym predicateIsParamater = "readItem \<Rightarrow> (unit, commandError) commandResult"

text \<open>
  The interface \<open>PresentationType\<close>. Its field \<open>name\<close> is called \<open>typeName\<close>
  here, since \<open>ParamaterDescription\<close> below has a field \<open>name\<close> too.
\<close>

record presentationType =
  validator :: predicateIsParamater
  typeName :: string

text \<open>
  \<open>PRESENTATION_TYPES\<close> is a module-level \<open>Map\<close>; the functions on it take the map
  and return it, changed or not, with their completion. A \<open>throw\<close> happens before
  \<open>set\<close> is reached, so it leaves the map as it was.
\<close>

type_synonym registry = "string \<rightharpoonup> presentationType"

definition findPresentationType :: "string \<Rightarrow> registry \<Rightarrow> presentationType completion" where
  "findPresentationType n PRESENTATION_TYPES =
     (case PRESENTATION_TYPES n of
        Some entry \<Rightarrow> Returns entry
      | None \<Rightarrow>
          Throws (TypeError (''presentation type with the name: '' @ n @ '' was not registered'')))"

definition registerPresentationType ::
  "string \<Rightarrow> presentationType \<Rightarrow> registry \<Rightarrow> unit completion \<times> registry" where
  "registerPresentationType n presentationType PRESENTATION_TYPES =
     (if PRESENTATION_TYPES n \<noteq> None
      then (Throws (TypeError (''presentation type with the name: '' @ n
                      @ '' has already been registered'')), PRESENTATION_TYPES)
      else (Returns (), PRESENTATION_TYPES(n \<mapsto> presentationType)))"

definition makePresentationType ::
  "presentationType \<Rightarrow> registry \<Rightarrow> presentationType completion \<times> registry" where
  "makePresentationType description PRESENTATION_TYPES =
     (case registerPresentationType (typeName description) description PRESENTATION_TYPES of
        (Throws e, r) \<Rightarrow> (Throws e, r)
      | (Returns _, r) \<Rightarrow> (Returns description, r))"

text \<open>
  The string conversion that a template literal applies to a token (\<open>${readItem}\<close>):
  a string converts to itself; the conversion of an object is decided by its class, which
  is not among the sources, so the conversion \<open>show\<close> of the other tokens is a
  parameter.
\<close>

fun String_readItem :: "(readItem \<Rightarrow> string) \<Rightarrow> readItem \<Rightarrow> string" where
  "String_readItem show (Str s) = s"
| "String_readItem show item = show item"

definition simpleTypeValidator ::
  "(readItem \<Rightarrow> string) \<Rightarrow> string \<Rightarrow> (readItem \<Rightarrow> bool) \<Rightarrow> predicateIsParamater" where
  "simpleTypeValidator show n predicate =
     (\<lambda>readItem.
        if predicate readItem then Ok ()
        else Err \<lparr>message = ''Was expecting a match for the presentation type: '' @ n
                     @ '' but got '' @ String_readItem show readItem @ ''.''\<rparr>)"

text \<open>The two presentation types the module registers when it is loaded.\<close>

definition Keyword_type :: "(readItem \<Rightarrow> string) \<Rightarrow> presentationType" where
  "Keyword_type show =
     \<lparr>validator = simpleTypeValidator show ''Keyword'' isKeyword, typeName = ''Keyword''\<rparr>"

definition string_type :: "(readItem \<Rightarrow> string) \<Rightarrow> presentationType" where
  "string_type show =
     \<lparr>validator = simpleTypeValidator show ''string'' isString, typeName = ''string''\<rparr>"

definition module_PRESENTATION_TYPES :: "(readItem \<Rightarrow> string) \<Rightarrow> registry" where
  "module_PRESENTATION_TYPES show =
     snd (makePresentationType (string_type show)
       (snd (makePresentationType (Keyword_type show) Map.empty)))"

section \<open>Parameter descriptions, errors and results\<close>

record paramaterDescription =
  name :: string
  description :: "string option"
  acceptor :: presentationType

record keywordPropertyDescription = paramaterDescription +
  isFlag :: bool

text \<open>
  \<open>KeywordsDescription\<close> is an object indexed by property name whose values are
  \<open>KeywordPropertyDescription | boolean\<close>; \<open>allowOtherKeys\<close> is one of its
  properties, a boolean. The map holds the object's own properties.
\<close>

datatype keywordsProperty = Description keywordPropertyDescription | Boolean bool

type_synonym keywordsDescription = "string \<rightharpoonup> keywordsProperty"

text \<open>
  \<open>this.description[item.designator]\<close> reads a property of a plain JavaScript object:
  an own property if there is one, else the property that the object inherits from
  \<open>Object.prototype\<close>, else \<open>undefined\<close>. What \<open>Object.prototype\<close> holds is fixed by
  the language: the function \<open>Object\<close> under \<open>constructor\<close>; under \<open>toString\<close>,
  \<open>valueOf\<close> and the others a function whose \<open>name\<close> is the property's name; and under
  \<open>__proto__\<close> the prototype object itself, which has no \<open>name\<close>. The parser reads only
  \<open>name\<close> and \<open>isFlag\<close> of what it finds, and none of these objects has an
  \<open>isFlag\<close>, so an inherited object is modelled by its \<open>name\<close>, if it has one.
\<close>

definition Object_prototype :: "string \<rightharpoonup> string option" where
  "Object_prototype n =
     (if n = ''__proto__'' then Some None
      else if n = ''constructor'' then Some (Some ''Object'')
      else if n \<in> set [''toString'', ''toLocaleString'', ''valueOf'', ''hasOwnProperty'',
                        ''isPrototypeOf'', ''propertyIsEnumerable'', ''__defineGetter__'',
                        ''__defineSetter__'', ''__lookupGetter__'', ''__lookupSetter__'']
      then Some (Some n)
      else None)"

datatype lookedUp = Undefined | Own keywordsProperty | Inherited "string option"

definition getProperty :: "keywordsDescription \<Rightarrow> string \<Rightarrow> lookedUp" where
  "getProperty kws n =
     (case kws n of
        Some p \<Rightarrow> Own p
      | None \<Rightarrow> (case Object_prototype n of Some f \<Rightarrow> Inherited f | None \<Rightarrow> Undefined))"

text \<open>
  The string that a template literal or a property key makes of the \<open>name\<close> of an
  inherited object: the name, or \<open>undefined\<close>.
\<close>

fun String_name :: "string option \<Rightarrow> string" where
  "String_name (Some n) = n"
| "String_name None = ''undefined''"

text \<open>
  \<open>ArgumentParseError\<close> extends \<open>CommandError\<close> with the parameter description it
  is bound to and the stream. The field is typed \<open>ParamaterDescription\<close>; the keyword
  parser stores a \<open>KeywordPropertyDescription\<close> there (a subtype), so the model keeps
  both forms apart, and apart from an object inherited from \<open>Object.prototype\<close>, which
  the keyword parser stores there when a designator names one. The stream is the parser's
  cursor as it stands when the error is made.
\<close>

datatype boundParamater =
  Positional paramaterDescription
| KeywordProperty keywordPropertyDescription
| InheritedObject "string option"

record argumentParseError = commandError +
  paramater :: boundParamater
  stream :: argumentStream

text \<open>
  \<open>DestructableRest\<close>: an object with the property \<open>rest\<close> (an array of tokens)
  and any other property, holding a token; the keyword parser also stores \<open>true\<close>.
  All are properties of one object, so a property named \<open>rest\<close> is the same slot as
  the array. The map holds the object's own properties.
\<close>

datatype propertyValue = Items "readItem list" | Item readItem | TrueValue

type_synonym destructableRest = "string \<rightharpoonup> propertyValue"

text \<open>
  \<open>destructable[name] = value\<close>. Under every name but \<open>__proto__\<close> the assignment
  creates or overwrites an own property (the properties that \<open>Object.prototype\<close> holds
  under other names are writable data properties, which an assignment shadows). Under
  \<open>__proto__\<close> it calls the setter inherited from \<open>Object.prototype\<close>: no own property
  is created; the setter does nothing with a string or \<open>true\<close>, and with an object it
  replaces the prototype of \<open>destructable\<close>, which is not one of its own properties.
\<close>

definition setProperty :: "destructableRest \<Rightarrow> string \<Rightarrow> propertyValue \<Rightarrow> destructableRest" where
  "setProperty destructable n v = (if n = ''__proto__'' then destructable else destructable(n \<mapsto> v))"

record parsedArguments =
  immediateArguments :: "readItem list"
  rest :: "destructableRest option"

section \<open>Rest parsers\<close>

text \<open>
  \<open>RestParser.parseRest\<close>: \<open>while (stream.peekItem()) items.push(stream.readItem())\<close>.
  The loop test is the truthiness of the peeked token. The stream is mutated, so the
  model returns it beside the result. (The parameter \<open>stream\<close> is written
  \<open>stream0\<close>: \<open>stream\<close> is a field of the error record.)
\<close>

function RestParser_loop ::
  "argumentStream \<Rightarrow> readItem list \<Rightarrow> (readItem list \<times> argumentStream) completion" where
  "RestParser_loop stream0 items =
     (case peekItem stream0 of
        None \<Rightarrow> Returns (items, stream0)
      | Some peeked \<Rightarrow>
          if truthy peeked
          then (case readItem stream0 of
                  Throws e \<Rightarrow> Throws e
                | Returns (item, stream') \<Rightarrow> RestParser_loop stream' (items @ [item]))
          else Returns (items, stream0))"
  by pat_completeness auto
termination
  by (relation "measure (\<lambda>(s, items). length (source s) - position s)")
     (auto simp: readItem_def peekItem_def split: if_splits)

declare RestParser_loop.simps [simp del]

definition RestParser_parseRest ::
  "argumentStream \<Rightarrow>
     ((destructableRest, argumentParseError) commandResult \<times> argumentStream) completion" where
  "RestParser_parseRest stream0 =
     (case RestParser_loop stream0 [] of
        Throws e \<Rightarrow> Throws e
      | Returns (items, stream') \<Rightarrow> Returns (Ok [''rest'' \<mapsto> Items items], stream'))"

text \<open>
  \<open>KeywordParser.parseRest\<close>. The immediately invoked function that computes
  \<open>associatedProperty\<close> comes first: when a token follows that is not a keyword it is
  read and returned, whatever \<open>isFlag\<close> says; only otherwise is \<open>isFlag\<close> looked at.
\<close>

definition hasAssociatedItem :: "argumentStream \<Rightarrow> bool" where
  "hasAssociatedItem itemStream =
     (case peekItem itemStream of None \<Rightarrow> False | Some peeked \<Rightarrow> \<not> isKeyword peeked)"

definition associatedProperty ::
  "keywordPropertyDescription \<Rightarrow> argumentStream \<Rightarrow>
     ((propertyValue, argumentParseError) commandResult \<times> argumentStream) completion" where
  "associatedProperty d itemStream =
     (if hasAssociatedItem itemStream
      then (case readItem itemStream of
              Throws e \<Rightarrow> Throws e
            | Returns (property, stream') \<Rightarrow> Returns (Ok (Item property), stream'))
      else if \<not> isFlag d
      then Returns (Err \<lparr>message = ''An associated argument was not provided for the keyword ''
                              @ name d @ ''.'',
                         paramater = KeywordProperty d, stream = itemStream\<rparr>, itemStream)
      else Returns (Ok TrueValue, itemStream))"

text \<open>
  The same function when \<open>description\<close> is an object inherited from
  \<open>Object.prototype\<close>: its \<open>isFlag\<close> is \<open>undefined\<close>, so without a value it is the
  error, with the string of its \<open>name\<close> in the message.
\<close>

definition inheritedProperty ::
  "string option \<Rightarrow> argumentStream \<Rightarrow>
     ((propertyValue, argumentParseError) commandResult \<times> argumentStream) completion" where
  "inheritedProperty f itemStream =
     (if hasAssociatedItem itemStream
      then (case readItem itemStream of
              Throws e \<Rightarrow> Throws e
            | Returns (property, stream') \<Rightarrow> Returns (Ok (Item property), stream'))
      else Returns (Err \<lparr>message = ''An associated argument was not provided for the keyword ''
                              @ String_name f @ ''.'',
                         paramater = InheritedObject f, stream = itemStream\<rparr>, itemStream))"

text \<open>
  The loop. A designator that neither the description nor \<open>Object.prototype\<close> holds
  gives \<open>undefined\<close>, which is not a boolean, so the
  \<open>typeof description === 'boolean'\<close> test lets it through; \<open>allowOtherKeys\<close> is never
  read. The next read of a property of it (\<open>description.isFlag\<close>, or
  \<open>description.name\<close> after a value was read) throws a \<open>TypeError\<close>.
  \<open>destructable.rest.push(item)\<close> throws a \<open>TypeError\<close> when \<open>rest\<close> no longer
  holds an array.
\<close>

function KeywordParser_loop ::
  "keywordsDescription \<Rightarrow> argumentStream \<Rightarrow> destructableRest \<Rightarrow>
     ((destructableRest, argumentParseError) commandResult \<times> argumentStream) completion" where
  "KeywordParser_loop kws itemStream destructable =
     (case peekItem itemStream of
        None \<Rightarrow> Returns (Ok destructable, itemStream)
      | Some _ \<Rightarrow>
          (case readItem itemStream of
             Throws e \<Rightarrow> Throws e
           | Returns (item, stream1) \<Rightarrow>
               if isKeyword item
               then (case getProperty kws (designator item) of
                       Own (Boolean _) \<Rightarrow> Throws (TypeError ''Shouldn't be a boolean mate'')
                     | Undefined \<Rightarrow>
                         Throws (TypeError
                           (if hasAssociatedItem stream1
                            then ''Cannot read properties of undefined (reading name)''
                            else ''Cannot read properties of undefined (reading isFlag)''))
                     | Own (Description d) \<Rightarrow>
                         (case associatedProperty d stream1 of
                            Throws e \<Rightarrow> Throws e
                          | Returns (Err e, stream2) \<Rightarrow> Returns (Err e, stream2)
                          | Returns (Ok v, stream2) \<Rightarrow>
                              KeywordParser_loop kws stream2
                                (setProperty destructable (name d) v))
                     | Inherited f \<Rightarrow>
                         (case inheritedProperty f stream1 of
                            Throws e \<Rightarrow> Throws e
                          | Returns (Err e, stream2) \<Rightarrow> Returns (Err e, stream2)
                          | Returns (Ok v, stream2) \<Rightarrow>
                              KeywordParser_loop kws stream2
                                (setProperty destructable (String_name f) v)))
               else (case destructable ''rest'' of
                       Some (Items xs) \<Rightarrow>
                         KeywordParser_loop kws stream1
                           (destructable(''rest'' \<mapsto> Items (xs @ [item])))
                     | _ \<Rightarrow> Throws (TypeError ''destructable.rest.push is not a function''))))"
  by pat_completeness auto
termination
  by (relation "measure (\<lambda>(d, s, acc). length (source s) - position s)")
     (auto simp: readItem_def peekItem_def associatedProperty_def inheritedProperty_def
           hasAssociatedItem_def split: if_splits option.splits)

declare KeywordParser_loop.simps [simp del]

definition KeywordParser_parseRest ::
  "keywordsDescription \<Rightarrow> argumentStream \<Rightarrow>
     ((destructableRest, argumentParseError) commandResult \<times> argumentStream) completion" where
  "KeywordParser_parseRest kws itemStream =
     KeywordParser_loop kws itemStream [''rest'' \<mapsto> Items []]"

text \<open>
  \<open>KeywordParser extends RestParser\<close> and overrides \<open>parseRest\<close>; a call
  \<open>restParser.parseRest(itemStream)\<close> dispatches on the class.
\<close>

datatype restParser = RestParser | KeywordParser keywordsDescription

fun parseRest ::
  "restParser \<Rightarrow> argumentStream \<Rightarrow>
     ((destructableRest, argumentParseError) commandResult \<times> argumentStream) completion" where
  "parseRest RestParser itemStream = RestParser_parseRest itemStream"
| "parseRest (KeywordParser kws) itemStream =
     KeywordParser_parseRest kws itemStream"

section \<open>The argument-list parser\<close>

text \<open>
  The \<open>for\<close> loop of \<open>makeParseFunction\<close>: it returns from the function with an
  error, or falls through with the stream advanced past one token per description.
\<close>

fun for_paramaters ::
  "paramaterDescription list \<Rightarrow> argumentStream \<Rightarrow>
     ((unit, argumentParseError) commandResult \<times> argumentStream) completion" where
  "for_paramaters [] itemStream = Returns (Ok (), itemStream)"
| "for_paramaters (p # ps) itemStream =
     (case peekItem itemStream of
        None \<Rightarrow>
          Returns (Err \<lparr>message = ''An argument for the paramater '' @ name p
                           @ '' was expected but was not provided.'',
                        paramater = Positional p, stream = itemStream\<rparr>, itemStream)
      | Some peeked \<Rightarrow>
          (case validator (acceptor p) peeked of
             Err e \<Rightarrow>
               Returns (Err \<lparr>message = message e,
                             paramater = Positional p, stream = itemStream\<rparr>, itemStream)
           | Ok _ \<Rightarrow>
               (case readItem itemStream of
                  Throws e \<Rightarrow> Throws e
                | Returns (_, stream') \<Rightarrow> for_paramaters ps stream')))"

type_synonym paramaterParser =
  "readItem list \<Rightarrow> (parsedArguments, argumentParseError) commandResult completion"

definition makeParseFunction ::
  "paramaterDescription list \<Rightarrow> restParser option \<Rightarrow> paramaterParser" where
  "makeParseFunction ds rp =
     (\<lambda>readItems.
        case for_paramaters ds (new_ArgumentStream readItems) of
          Throws e \<Rightarrow> Throws e
        | Returns (Err e, _) \<Rightarrow> Returns (Err e)
        | Returns (Ok _, itemStream) \<Rightarrow>
            (case rp of
               Some parser \<Rightarrow>
                 (case parseRest parser itemStream of
                    Throws e \<Rightarrow> Throws e
                  | Returns (Err e, _) \<Rightarrow> Returns (Err e)
                  | Returns (Ok r, _) \<Rightarrow>
                      Returns (Ok \<lparr>immediateArguments = readItems, rest = Some r\<rparr>))
             | None \<Rightarrow> Returns (Ok \<lparr>immediateArguments = readItems, rest = None\<rparr>)))"

record argumentListParser =
  parseFunction :: paramaterParser
  descriptions :: "paramaterDescription list"
  restParser :: "restParser option"

definition paramaters ::
  "paramaterDescription list \<Rightarrow> restParser option \<Rightarrow> argumentListParser" where
  "paramaters ds rp =
     \<lparr>parseFunction = makeParseFunction ds rp, descriptions = ds, restParser = rp\<rparr>"

section \<open>The union of validators\<close>

text \<open>
  \<open>Array.prototype.toString\<close>, which a template literal applies to an array: the
  elements' string conversions joined by commas.
\<close>

fun Array_toString :: "('a \<Rightarrow> string) \<Rightarrow> 'a list \<Rightarrow> string" where
  "Array_toString show [] = []"
| "Array_toString show [x] = show x"
| "Array_toString show (x # y # ys) = show x @ '','' @ Array_toString show (y # ys)"

text \<open>
  \<open>union\<close> (named \<open>union_predicates\<close>: \<open>union\<close> is a constant of the list
  library). The failure message interpolates \<open>matches\<close>, an array of
  \<open>CommandResult\<close> objects; how such an object converts to a string is decided by its
  class, which is not among the sources, so the conversion \<open>show\<close> is a parameter.
\<close>

definition union_predicates ::
  "((unit, commandError) commandResult \<Rightarrow> string) \<Rightarrow> predicateIsParamater list
     \<Rightarrow> predicateIsParamater" where
  "union_predicates show predicates =
     (\<lambda>item.
        let matches = map (\<lambda>predicate. predicate item) predicates;
            oks = filter isOk matches
        in if length oks > 0 then Ok ()
           else Err \<lparr>message = ''The argument must match the paramater description ''
                        @ Array_toString show matches\<rparr>)"

text \<open>
  \<open>Object.prototype.toString\<close>: the string conversion of an object whose class
  declares none of its own.
\<close>

definition Object_toString :: "'a \<Rightarrow> string" where
  "Object_toString x = ''[object Object]''"

section \<open>Auxiliary definitions for the statements\<close>

text \<open>The bundle of a keyword parse that returned a success, if it did.\<close>

fun okBundle ::
  "((destructableRest, argumentParseError) commandResult \<times> argumentStream) completion
     \<Rightarrow> destructableRest option" where
  "okBundle (Returns (Ok b, _)) = Some b"
| "okBundle _ = None"

text \<open>
  The property \<open>rest\<close> of a bundle holds a single recorded keyword value (a token or
  \<open>true\<close>), not the array of leftover tokens.
\<close>

definition restReplaced :: "destructableRest \<Rightarrow> bool" where
  "restReplaced b =
     (case b ''rest'' of Some (Item _) \<Rightarrow> True | Some TrueValue \<Rightarrow> True | _ \<Rightarrow> False)"

text \<open>
  The value that the keyword parser records for a designator, by the tokens that follow
  it: the next token when it is not a keyword, \<open>true\<close> otherwise.
\<close>

definition recordedValue :: "readItem list \<Rightarrow> propertyValue" where
  "recordedValue after =
     (case after of [] \<Rightarrow> TrueValue | t # _ \<Rightarrow> if isKeyword t then TrueValue else Item t)"

text \<open>
  The token is a designator of a keyword that the description declares with the name
  \<open>rest\<close>.
\<close>

definition namedRest :: "keywordsDescription \<Rightarrow> readItem \<Rightarrow> bool" where
  "namedRest kws x =
     (isKeyword x \<and>
      (case kws (designator x) of Some (Description d) \<Rightarrow> name d = ''rest'' | _ \<Rightarrow> False))"

text \<open>\<open>String.prototype.includes\<close>: \<open>n\<close> occurs in \<open>m\<close> as a substring.\<close>

fun String_includes :: "string \<Rightarrow> string \<Rightarrow> bool" where
  "String_includes [] n = (n = [])"
| "String_includes (c # cs) n = (take (length n) (c # cs) = n \<or> String_includes cs n)"

fun isOther :: "readItem \<Rightarrow> bool" where
  "isOther (Other _) = True"
| "isOther _ = False"

text \<open>
  The descriptions of the spec's examples: a flag \<open>dry-run\<close> and a keyword \<open>room\<close>
  that takes a value; a keyword whose name is \<open>rest\<close>; two positional parameters that
  accept strings. Where a token that is not a string is converted to a string, the
  examples take \<open>Object_toString\<close>.
\<close>

definition example_room :: keywordPropertyDescription where
  "example_room =
     \<lparr>name = ''room'', description = None, acceptor = string_type Object_toString,
      isFlag = False\<rparr>"

definition example_dry_run :: keywordPropertyDescription where
  "example_dry_run =
     \<lparr>name = ''dry-run'', description = None, acceptor = string_type Object_toString,
      isFlag = True\<rparr>"

definition example_keywords :: keywordsDescription where
  "example_keywords =
     [''allowOtherKeys'' \<mapsto> Boolean False,
      ''dry-run'' \<mapsto> Description example_dry_run,
      ''room'' \<mapsto> Description example_room]"

definition example_tokens :: "readItem list" where
  "example_tokens =
     [Keyword ''dry-run'', Str ''alice'', Keyword ''room'', Str ''#x:example.org'',
      Str ''reason'', Str ''text'']"

definition example_rest_keyword :: keywordPropertyDescription where
  "example_rest_keyword =
     \<lparr>name = ''rest'', description = None, acceptor = string_type Object_toString,
      isFlag = False\<rparr>"

definition example_rest_keywords :: keywordsDescription where
  "example_rest_keywords =
     [''allowOtherKeys'' \<mapsto> Boolean False, ''rest'' \<mapsto> Description example_rest_keyword]"

definition example_user :: paramaterDescription where
  "example_user =
     \<lparr>name = ''user'', description = None, acceptor = string_type Object_toString\<rparr>"

definition example_server :: paramaterDescription where
  "example_server =
     \<lparr>name = ''server'', description = None, acceptor = string_type Object_toString\<rparr>"

definition example_UserID :: presentationType where
  "example_UserID =
     \<lparr>validator = simpleTypeValidator Object_toString ''UserID'' isOther,
      typeName = ''UserID''\<rparr>"

section \<open>Facts about the stream and the loops\<close>

lemmas example_defs =
  example_room_def example_dry_run_def example_keywords_def example_tokens_def
  example_rest_keyword_def example_rest_keywords_def example_user_def example_server_def
  example_UserID_def

lemmas validator_defs =
  string_type_def Keyword_type_def simpleTypeValidator_def Object_toString_def

lemmas parser_eval =
  KeywordParser_parseRest_def KeywordParser_loop.simps peekItem_def readItem_def
  associatedProperty_def inheritedProperty_def hasAssociatedItem_def new_ArgumentStream_def
  getProperty_def Object_prototype_def setProperty_def

lemma peekItem_at [simp]:
  "peekItem \<lparr>source = before @ x # after, position = length before\<rparr> = Some x"
  by (simp add: peekItem_def)

lemma peekItem_end [simp]:
  "peekItem \<lparr>source = ts, position = length ts\<rparr> = None"
  by (simp add: peekItem_def)

lemma peekItem_next:
  "peekItem \<lparr>source = before @ x # after, position = Suc (length before)\<rparr>
     = (case after of [] \<Rightarrow> None | y # _ \<Rightarrow> Some y)"
  by (cases after) (simp_all add: peekItem_def nth_append nth_Cons')

lemma peekItem_Some_less: "peekItem s = Some x \<Longrightarrow> position s < length (source s)"
  by (simp add: peekItem_def split: if_splits)

lemma rest_Cons:
  "peekItem s = Some x \<Longrightarrow>
     ArgumentStream_rest s = x # ArgumentStream_rest (s\<lparr>position := Suc (position s)\<rparr>)"
  by (auto simp: ArgumentStream_rest_def peekItem_def Cons_nth_drop_Suc [symmetric]
           split: if_splits)

lemma getProperty_own [simp]: "kws n = Some p \<Longrightarrow> getProperty kws n = Own p"
  by (simp add: getProperty_def)

lemma Object_prototype_name:
  "Object_prototype n = Some (Some m) \<Longrightarrow> m = ''Object'' \<or> m = n"
  unfolding Object_prototype_def by (simp split: if_splits)

lemma Object_prototype_rest: "Object_prototype ''rest'' = None"
  by (simp add: Object_prototype_def)

lemma String_name_inherited:
  assumes "Object_prototype n = Some f"
  shows "String_name f \<noteq> ''rest''"
proof
  assume r: "String_name f = ''rest''"
  then have f: "f = Some ''rest''" by (cases f) simp_all
  with assms have "Object_prototype n = Some (Some ''rest'')" by simp
  from Object_prototype_name [OF this] have "n = ''rest''" by simp
  with assms show False by (simp add: Object_prototype_rest)
qed

lemma setProperty_rest [simp]: "setProperty acc ''rest'' v = acc(''rest'' \<mapsto> v)"
  by (simp add: setProperty_def)

lemma setProperty_other: "n \<noteq> ''rest'' \<Longrightarrow> setProperty acc n v ''rest'' = acc ''rest''"
  by (simp add: setProperty_def)

text \<open>One iteration of the keyword parser's loop, by what the stream holds.\<close>

lemma loop_end:
  "peekItem s = None \<Longrightarrow> KeywordParser_loop kws s acc = Returns (Ok acc, s)"
  by (subst KeywordParser_loop.simps) simp

lemma loop_item:
  "peekItem s = Some x \<Longrightarrow> \<not> isKeyword x \<Longrightarrow>
   KeywordParser_loop kws s acc =
     (case acc ''rest'' of
        Some (Items xs) \<Rightarrow>
          KeywordParser_loop kws (s\<lparr>position := Suc (position s)\<rparr>)
            (acc(''rest'' \<mapsto> Items (xs @ [x])))
      | _ \<Rightarrow> Throws (TypeError ''destructable.rest.push is not a function''))"
  by (subst KeywordParser_loop.simps) (simp add: readItem_def)

lemma loop_keyword:
  "peekItem s = Some x \<Longrightarrow> isKeyword x \<Longrightarrow> kws (designator x) = Some (Description d) \<Longrightarrow>
   KeywordParser_loop kws s acc =
     (case associatedProperty d (s\<lparr>position := Suc (position s)\<rparr>) of
        Throws e \<Rightarrow> Throws e
      | Returns (Err e, s2) \<Rightarrow> Returns (Err e, s2)
      | Returns (Ok v, s2) \<Rightarrow> KeywordParser_loop kws s2 (setProperty acc (name d) v))"
  by (subst KeywordParser_loop.simps) (simp add: readItem_def)

lemma loop_keyword_inherited:
  "peekItem s = Some x \<Longrightarrow> isKeyword x \<Longrightarrow> getProperty kws (designator x) = Inherited f \<Longrightarrow>
   KeywordParser_loop kws s acc =
     (case inheritedProperty f (s\<lparr>position := Suc (position s)\<rparr>) of
        Throws e \<Rightarrow> Throws e
      | Returns (Err e, s2) \<Rightarrow> Returns (Err e, s2)
      | Returns (Ok v, s2) \<Rightarrow> KeywordParser_loop kws s2 (setProperty acc (String_name f) v))"
  by (subst KeywordParser_loop.simps) (simp add: readItem_def)

lemma loop_keyword_undefined:
  "peekItem s = Some x \<Longrightarrow> isKeyword x \<Longrightarrow> getProperty kws (designator x) = Undefined \<Longrightarrow>
   KeywordParser_loop kws s acc =
     Throws (TypeError
       (if hasAssociatedItem (s\<lparr>position := Suc (position s)\<rparr>)
        then ''Cannot read properties of undefined (reading name)''
        else ''Cannot read properties of undefined (reading isFlag)''))"
  by (subst KeywordParser_loop.simps) (simp add: readItem_def)

lemma loop_keyword_boolean:
  "peekItem s = Some x \<Longrightarrow> isKeyword x \<Longrightarrow> kws (designator x) = Some (Boolean b) \<Longrightarrow>
   KeywordParser_loop kws s acc = Throws (TypeError ''Shouldn't be a boolean mate'')"
  by (subst KeywordParser_loop.simps) (simp add: readItem_def)

text \<open>
  What a successful \<open>associatedProperty\<close> does: it records the value that
  \<open>recordedValue\<close> gives for the tokens that follow the designator, and it consumes
  that token (never a keyword) or nothing.
\<close>

lemma rest_empty: "peekItem s = None \<Longrightarrow> ArgumentStream_rest s = []"
  by (simp add: ArgumentStream_rest_def peekItem_def split: if_splits)

lemma read_value:
  assumes "hasAssociatedItem s1"
  shows "\<exists>t. \<not> isKeyword t \<and> readItem s1 = Returns (t, s1\<lparr>position := Suc (position s1)\<rparr>)
           \<and> ArgumentStream_rest s1 = t # ArgumentStream_rest (s1\<lparr>position := Suc (position s1)\<rparr>)
           \<and> recordedValue (ArgumentStream_rest s1) = Item t
           \<and> position s1 < length (source s1)"
proof -
  from assms obtain t where t: "peekItem s1 = Some t" "\<not> isKeyword t"
    by (auto simp: hasAssociatedItem_def split: option.splits)
  then show ?thesis
    by (auto simp: readItem_def rest_Cons [OF t(1)] recordedValue_def peekItem_Some_less)
qed

lemma no_value:
  assumes "\<not> hasAssociatedItem s1"
  shows "recordedValue (ArgumentStream_rest s1) = TrueValue"
proof (cases "peekItem s1")
  case None
  then show ?thesis by (simp add: rest_empty recordedValue_def)
next
  case (Some t)
  with assms have "isKeyword t" by (simp add: hasAssociatedItem_def)
  with Some show ?thesis by (simp add: rest_Cons [OF Some] recordedValue_def)
qed

lemma associatedProperty_Ok:
  assumes "associatedProperty d s1 = Returns (Ok v, s2)"
  shows "v = recordedValue (ArgumentStream_rest s1)
       \<and> (\<exists>pre. ArgumentStream_rest s1 = pre @ ArgumentStream_rest s2
                  \<and> (\<forall>t \<in> set pre. \<not> isKeyword t))
       \<and> source s2 = source s1 \<and> position s1 \<le> position s2"
proof (cases "hasAssociatedItem s1")
  case True
  from read_value [OF True] obtain t where
    t: "\<not> isKeyword t" "readItem s1 = Returns (t, s1\<lparr>position := Suc (position s1)\<rparr>)"
       "ArgumentStream_rest s1 = t # ArgumentStream_rest (s1\<lparr>position := Suc (position s1)\<rparr>)"
       "recordedValue (ArgumentStream_rest s1) = Item t"
    by blast
  from assms True t(2) have "v = Item t" "s2 = s1\<lparr>position := Suc (position s1)\<rparr>"
    by (simp_all add: associatedProperty_def)
  with t show ?thesis
    by (auto intro: exI [where x = "[t]"])
next
  case False
  with assms have "v = TrueValue" "s2 = s1"
    by (auto simp: associatedProperty_def split: if_splits)
  with no_value [OF False] show ?thesis
    by (auto intro: exI [where x = "[]"])
qed

lemma inheritedProperty_Ok:
  assumes "inheritedProperty f s1 = Returns (Ok v, s2)"
  shows "v = recordedValue (ArgumentStream_rest s1)
       \<and> (\<exists>pre. ArgumentStream_rest s1 = pre @ ArgumentStream_rest s2
                  \<and> (\<forall>t \<in> set pre. \<not> isKeyword t))
       \<and> source s2 = source s1 \<and> position s1 \<le> position s2"
proof (cases "hasAssociatedItem s1")
  case True
  from read_value [OF True] obtain t where
    t: "\<not> isKeyword t" "readItem s1 = Returns (t, s1\<lparr>position := Suc (position s1)\<rparr>)"
       "ArgumentStream_rest s1 = t # ArgumentStream_rest (s1\<lparr>position := Suc (position s1)\<rparr>)"
       "recordedValue (ArgumentStream_rest s1) = Item t"
    by blast
  from assms True t(2) have "v = Item t" "s2 = s1\<lparr>position := Suc (position s1)\<rparr>"
    by (simp_all add: inheritedProperty_def)
  with t show ?thesis
    by (auto intro: exI [where x = "[t]"])
next
  case False
  with assms show ?thesis
    by (simp add: inheritedProperty_def)
qed

lemma recordedValue_cases: "(\<exists>t. recordedValue ts = Item t) \<or> recordedValue ts = TrueValue"
  by (auto simp: recordedValue_def split: list.splits)

text \<open>
  One successful iteration at a designator: the loop goes on from a later position with
  the recorded value of the designator set under a key, which is \<open>rest\<close> exactly when
  the designator is of a keyword named \<open>rest\<close>.
\<close>

lemma keyword_step:
  assumes "peekItem s = Some x" and "isKeyword x"
    and "KeywordParser_loop kws s acc = Returns (Ok b, s')"
  shows "\<exists>key s2 pre.
           KeywordParser_loop kws s2
               (setProperty acc key
                  (recordedValue (ArgumentStream_rest (s\<lparr>position := Suc (position s)\<rparr>))))
             = Returns (Ok b, s')
         \<and> ArgumentStream_rest (s\<lparr>position := Suc (position s)\<rparr>)
             = pre @ ArgumentStream_rest s2
         \<and> (\<forall>t \<in> set pre. \<not> isKeyword t)
         \<and> length (source s2) - position s2 < length (source s) - position s
         \<and> (key = ''rest'' \<longleftrightarrow> namedRest kws x)"
proof -
  let ?s1 = "s\<lparr>position := Suc (position s)\<rparr>"
  note lt = peekItem_Some_less [OF assms(1)]
  show ?thesis
  proof (cases "getProperty kws (designator x)")
    case Undefined
    with assms show ?thesis by (simp add: loop_keyword_undefined)
  next
    case (Own p)
    then have own: "kws (designator x) = Some p"
      by (simp add: getProperty_def split: option.splits)
    show ?thesis
    proof (cases p)
      case (Boolean bb)
      with assms own show ?thesis by (simp add: loop_keyword_boolean [where kws = kws])
    next
      case (Description d)
      with own have d: "kws (designator x) = Some (Description d)" by simp
      have "KeywordParser_loop kws s acc =
          (case associatedProperty d ?s1 of
             Throws e \<Rightarrow> Throws e
           | Returns (Err e, s2) \<Rightarrow> Returns (Err e, s2)
           | Returns (Ok v, s2) \<Rightarrow> KeywordParser_loop kws s2 (setProperty acc (name d) v))"
        using assms(1,2) d by (rule loop_keyword [where kws = kws])
      with assms(3) obtain v s2 where
        v: "associatedProperty d ?s1 = Returns (Ok v, s2)"
        and rec: "KeywordParser_loop kws s2 (setProperty acc (name d) v) = Returns (Ok b, s')"
        by (auto split: completion.splits commandResult.splits prod.splits)
      from associatedProperty_Ok [OF v] obtain pre where
        f1: "v = recordedValue (ArgumentStream_rest ?s1)"
        and f2: "ArgumentStream_rest ?s1 = pre @ ArgumentStream_rest s2"
        and f3: "\<forall>t \<in> set pre. \<not> isKeyword t"
        and f4: "source s2 = source ?s1" "position ?s1 \<le> position s2"
        by blast
      have f5: "name d = ''rest'' \<longleftrightarrow> namedRest kws x"
        using assms(2) d by (simp add: namedRest_def)
      have f6: "length (source s2) - position s2 < length (source s) - position s"
        using f4 lt by simp
      from rec f1 have
        "KeywordParser_loop kws s2
           (setProperty acc (name d) (recordedValue (ArgumentStream_rest ?s1)))
         = Returns (Ok b, s')"
        by simp
      with f2 f3 f5 f6 show ?thesis by blast
    qed
  next
    case (Inherited f)
    then have none: "kws (designator x) = None" and proto: "Object_prototype (designator x) = Some f"
      by (auto simp: getProperty_def split: option.splits)
    have "KeywordParser_loop kws s acc =
        (case inheritedProperty f ?s1 of
           Throws e \<Rightarrow> Throws e
         | Returns (Err e, s2) \<Rightarrow> Returns (Err e, s2)
         | Returns (Ok v, s2) \<Rightarrow> KeywordParser_loop kws s2 (setProperty acc (String_name f) v))"
      using assms(1,2) Inherited by (rule loop_keyword_inherited)
    with assms(3) obtain v s2 where
      v: "inheritedProperty f ?s1 = Returns (Ok v, s2)"
      and rec: "KeywordParser_loop kws s2 (setProperty acc (String_name f) v) = Returns (Ok b, s')"
      by (auto split: completion.splits commandResult.splits prod.splits)
    from inheritedProperty_Ok [OF v] obtain pre where
      f1: "v = recordedValue (ArgumentStream_rest ?s1)"
      and f2: "ArgumentStream_rest ?s1 = pre @ ArgumentStream_rest s2"
      and f3: "\<forall>t \<in> set pre. \<not> isKeyword t"
      and f4: "source s2 = source ?s1" "position ?s1 \<le> position s2"
      by blast
    have "String_name f \<noteq> ''rest''" "\<not> namedRest kws x"
      using none String_name_inherited [OF proto] by (simp_all add: namedRest_def)
    then have f5: "String_name f = ''rest'' \<longleftrightarrow> namedRest kws x"
      by simp
    have f6: "length (source s2) - position s2 < length (source s) - position s"
      using f4 lt by simp
    from rec f1 have
      "KeywordParser_loop kws s2
         (setProperty acc (String_name f) (recordedValue (ArgumentStream_rest ?s1)))
       = Returns (Ok b, s')"
      by simp
    with f2 f3 f5 f6 show ?thesis by blast
  qed
qed

section \<open>The keyword parser: flags\<close>

text \<open>
  C1. The claim: for a keyword declared with \<open>isFlag = true\<close> the keyword parser
  records \<open>true\<close> and consumes no further token; the spec's example
  \<open>["--dry-run", "alice", "--room", "#x:example.org", "reason", "text"]\<close> yields
  \<open>dry-run: true\<close>, \<open>room: "#x:example.org"\<close> and
  \<open>rest = ["alice", "reason", "text"]\<close>. The code at that input: the flag
  \<open>dry-run\<close> is followed by \<open>alice\<close>, which is not a keyword, so the parser reads
  \<open>alice\<close> as the value of \<open>dry-run\<close> (\<open>isFlag\<close> is only looked at when no value
  follows). The bundle it returns is the first one below, not the one of the claim (the
  second): \<open>dry-run\<close> holds \<open>alice\<close>, and \<open>alice\<close> is missing from \<open>rest\<close>.
\<close>

theorem flag_swallows_next_token:
  "okBundle (KeywordParser_parseRest example_keywords (new_ArgumentStream example_tokens))
     = Some [''dry-run'' \<mapsto> Item (Str ''alice''),
             ''room'' \<mapsto> Item (Str ''#x:example.org''),
             ''rest'' \<mapsto> Items [Str ''reason'', Str ''text'']]
   \<and> okBundle (KeywordParser_parseRest example_keywords (new_ArgumentStream example_tokens))
     \<noteq> Some [''dry-run'' \<mapsto> TrueValue,
             ''room'' \<mapsto> Item (Str ''#x:example.org''),
             ''rest'' \<mapsto> Items [Str ''alice'', Str ''reason'', Str ''text'']]
   \<and> isFlag example_dry_run"
proof -
  have run: "okBundle (KeywordParser_parseRest example_keywords (new_ArgumentStream example_tokens))
     = Some [''dry-run'' \<mapsto> Item (Str ''alice''),
             ''room'' \<mapsto> Item (Str ''#x:example.org''),
             ''rest'' \<mapsto> Items [Str ''reason'', Str ''text'']]"
    by (simp add: parser_eval example_defs)
  have "[''dry-run'' \<mapsto> Item (Str ''alice''),
         ''room'' \<mapsto> Item (Str ''#x:example.org''),
         ''rest'' \<mapsto> Items [Str ''reason'', Str ''text'']]
      \<noteq> [''dry-run'' \<mapsto> TrueValue,
         ''room'' \<mapsto> Item (Str ''#x:example.org''),
         ''rest'' \<mapsto> Items [Str ''alice'', Str ''reason'', Str ''text'']]"
    by (auto dest!: fun_cong [where x = "''dry-run''"])
  with run show ?thesis by (simp add: example_dry_run_def)
qed

section \<open>The keyword parser: unknown keywords\<close>

text \<open>
  Whatever \<open>allowOtherKeys\<close> holds, a designator that the description does not declare
  (and that names nothing in \<open>Object.prototype\<close>) makes the parser throw.
\<close>

lemma unknown_keyword_always_throws:
  assumes "kws k = None" and "Object_prototype k = None" and "peekItem s = Some (Keyword k)"
  shows "\<exists>m. KeywordParser_loop kws s acc = Throws (TypeError m)"
proof -
  have "getProperty kws (designator (Keyword k)) = Undefined"
    using assms(1,2) by (simp add: getProperty_def)
  with assms(3) show ?thesis
    by (simp add: loop_keyword_undefined [where kws = kws and x = "Keyword k"])
qed

text \<open>
  A designator that names a property of \<open>Object.prototype\<close> finds the inherited
  object: with a value, the value is stored under the object's \<open>name\<close>
  (\<open>Object\<close> for \<open>constructor\<close>, \<open>undefined\<close> for \<open>__proto__\<close>); without one,
  the error is returned, bound to the inherited object. And a value for a keyword whose
  description is named \<open>__proto__\<close> is not stored as a property.
\<close>

lemma inherited_designators:
  "okBundle (KeywordParser_parseRest example_keywords
       (new_ArgumentStream [Keyword ''constructor'', Str ''x'']))
     = Some [''rest'' \<mapsto> Items [], ''Object'' \<mapsto> Item (Str ''x'')]
   \<and> KeywordParser_parseRest example_keywords (new_ArgumentStream [Keyword ''constructor''])
     = Returns (Err \<lparr>message = ''An associated argument was not provided for the keyword Object.'',
                      paramater = InheritedObject (Some ''Object''),
                      stream = \<lparr>source = [Keyword ''constructor''], position = 1\<rparr>\<rparr>,
                \<lparr>source = [Keyword ''constructor''], position = 1\<rparr>)
   \<and> okBundle (KeywordParser_parseRest example_keywords
       (new_ArgumentStream [Keyword ''__proto__'', Str ''x'']))
     = Some [''rest'' \<mapsto> Items [], ''undefined'' \<mapsto> Item (Str ''x'')]
   \<and> okBundle (KeywordParser_parseRest
       [''p'' \<mapsto> Description (example_room\<lparr>name := ''__proto__''\<rparr>)]
       (new_ArgumentStream [Keyword ''p'', Str ''x'']))
     = Some [''rest'' \<mapsto> Items []]"
  by (simp add: parser_eval example_defs)

text \<open>
  C2. The claim: with \<open>allowOtherKeys = false\<close>, a designator that is not declared makes
  the keyword parser return an \<open>UnknownKeyword\<close> error as a value. The code at the
  inputs \<open>["--bogus"]\<close> and \<open>["--bogus", "x"]\<close>, with the example description (which
  holds \<open>allowOtherKeys = false\<close> and no \<open>bogus\<close>): it returns nothing, it throws a
  \<open>TypeError\<close>, from reading a property of the \<open>undefined\<close> description.
\<close>

theorem unknown_keyword_throws:
  "KeywordParser_parseRest example_keywords (new_ArgumentStream [Keyword ''bogus''])
     = Throws (TypeError ''Cannot read properties of undefined (reading isFlag)'')
   \<and> KeywordParser_parseRest example_keywords (new_ArgumentStream [Keyword ''bogus'', Str ''x''])
     = Throws (TypeError ''Cannot read properties of undefined (reading name)'')
   \<and> example_keywords ''allowOtherKeys'' = Some (Boolean False)
   \<and> example_keywords ''bogus'' = None"
  by (simp add: parser_eval example_defs)

section \<open>The keyword parser: a keyword without its value\<close>

text \<open>
  C5. Let \<open>k\<close> be declared and not a flag, and let the parser stand at a designator for
  \<open>k\<close> that is immediately followed by the end of the stream or by another keyword
  designator. Then the keyword parser fails, whatever it has collected so far: it returns
  the error that no associated argument was provided for the keyword, bound to the
  description of \<open>k\<close>, with the stream standing after the designator.
\<close>

theorem missing_keyword_value:
  assumes "kws k = Some (Description d)" and "\<not> isFlag d"
    and "after = [] \<or> (\<exists>k' ts. after = Keyword k' # ts)"
    and "itemStream = \<lparr>source = before @ Keyword k # after, position = length before\<rparr>"
  shows "KeywordParser_loop kws itemStream destructable
           = Returns (Err \<lparr>message = ''An associated argument was not provided for the keyword ''
                                 @ name d @ ''.'',
                            paramater = KeywordProperty d,
                            stream = itemStream\<lparr>position := Suc (length before)\<rparr>\<rparr>,
                      itemStream\<lparr>position := Suc (length before)\<rparr>)
       \<and> KeywordParser_parseRest kws itemStream
           = Returns (Err \<lparr>message = ''An associated argument was not provided for the keyword ''
                                 @ name d @ ''.'',
                            paramater = KeywordProperty d,
                            stream = itemStream\<lparr>position := Suc (length before)\<rparr>\<rparr>,
                      itemStream\<lparr>position := Suc (length before)\<rparr>)"
proof -
  have next_item: "\<not> hasAssociatedItem (itemStream\<lparr>position := Suc (length before)\<rparr>)"
    using assms(3,4) by (auto simp: hasAssociatedItem_def peekItem_next)
  have read: "readItem itemStream
      = Returns (Keyword k, itemStream\<lparr>position := Suc (length before)\<rparr>)"
    using assms(4) by (simp add: readItem_def)
  have "KeywordParser_loop kws itemStream acc
           = Returns (Err \<lparr>message = ''An associated argument was not provided for the keyword ''
                                 @ name d @ ''.'',
                            paramater = KeywordProperty d,
                            stream = itemStream\<lparr>position := Suc (length before)\<rparr>\<rparr>,
                      itemStream\<lparr>position := Suc (length before)\<rparr>)" for acc
    using read assms(1,2,4) next_item
    by (subst KeywordParser_loop.simps) (simp add: associatedProperty_def)
  then show ?thesis by (simp add: KeywordParser_parseRest_def)
qed

text \<open>The spec's two examples: \<open>["--room"]\<close> and \<open>["--room", "--dry-run"]\<close>.\<close>

theorem missing_keyword_value_witness:
  "example_keywords ''room'' = Some (Description example_room)
   \<and> \<not> isFlag example_room
   \<and> KeywordParser_parseRest example_keywords (new_ArgumentStream [Keyword ''room''])
      = Returns (Err \<lparr>message = ''An associated argument was not provided for the keyword room.'',
                       paramater = KeywordProperty example_room,
                       stream = \<lparr>source = [Keyword ''room''], position = 1\<rparr>\<rparr>,
                 \<lparr>source = [Keyword ''room''], position = 1\<rparr>)
   \<and> KeywordParser_parseRest example_keywords
        (new_ArgumentStream [Keyword ''room'', Keyword ''dry-run''])
      = Returns (Err \<lparr>message = ''An associated argument was not provided for the keyword room.'',
                       paramater = KeywordProperty example_room,
                       stream = \<lparr>source = [Keyword ''room'', Keyword ''dry-run''],
                                 position = 1\<rparr>\<rparr>,
                 \<lparr>source = [Keyword ''room'', Keyword ''dry-run''], position = 1\<rparr>)"
proof -
  have k: "example_keywords ''room'' = Some (Description example_room)"
    by (simp add: example_defs)
  have f: "\<not> isFlag example_room"
    by (simp add: example_defs)
  show ?thesis
    using k f
      missing_keyword_value [where kws = example_keywords and k = "''room''"
        and d = example_room and before = "[]" and after = "[]"
        and destructable = "[''rest'' \<mapsto> Items []]", OF k f _ refl]
      missing_keyword_value [where kws = example_keywords and k = "''room''"
        and d = example_room and before = "[]" and after = "[Keyword ''dry-run'']"
        and destructable = "[''rest'' \<mapsto> Items []]", OF k f _ refl]
    by (simp add: new_ArgumentStream_def example_room_def)
qed

section \<open>The keyword parser: a keyword named rest\<close>

lemma restReplaced_recorded: "restReplaced (acc(''rest'' \<mapsto> recordedValue ts))"
proof -
  from recordedValue_cases [of ts] show ?thesis
  proof
    assume "\<exists>t. recordedValue ts = Item t"
    then obtain t where "recordedValue ts = Item t" ..
    then show ?thesis by (simp add: restReplaced_def)
  next
    assume "recordedValue ts = TrueValue"
    then show ?thesis by (simp add: restReplaced_def)
  qed
qed

text \<open>
  Once \<open>rest\<close> holds a recorded value, it keeps that value as long as no designator of
  a keyword named \<open>rest\<close> follows: a later keyword is stored under another name, and a
  later leftover token makes \<open>push\<close> throw.
\<close>

lemma rest_kept:
  "KeywordParser_loop kws s acc = Returns (Ok b, s') \<Longrightarrow> restReplaced acc \<Longrightarrow>
   \<forall>y \<in> set (ArgumentStream_rest s). \<not> namedRest kws y \<Longrightarrow> b ''rest'' = acc ''rest''"
proof (induction "length (source s) - position s" arbitrary: s acc rule: less_induct)
  case less
  show ?case
  proof (cases "peekItem s")
    case None
    with less.prems(1) show ?thesis by (simp add: loop_end)
  next
    case (Some x)
    let ?s1 = "s\<lparr>position := Suc (position s)\<rparr>"
    show ?thesis
    proof (cases "isKeyword x")
      case False
      with less.prems(1,2) Some show ?thesis
        by (simp add: loop_item restReplaced_def split: option.splits propertyValue.splits)
    next
      case True
      from keyword_step [OF Some True less.prems(1)] obtain key s2 pre where
        rec: "KeywordParser_loop kws s2
                (setProperty acc key (recordedValue (ArgumentStream_rest ?s1)))
              = Returns (Ok b, s')"
        and later: "ArgumentStream_rest ?s1 = pre @ ArgumentStream_rest s2"
        and smaller: "length (source s2) - position s2 < length (source s) - position s"
        and key: "key = ''rest'' \<longleftrightarrow> namedRest kws x"
        by blast
      from less.prems(3) have "\<not> namedRest kws x"
        by (simp add: rest_Cons [OF Some])
      with key have other: "key \<noteq> ''rest''" by simp
      let ?acc = "setProperty acc key (recordedValue (ArgumentStream_rest ?s1))"
      have same: "?acc ''rest'' = acc ''rest''"
        using other by (rule setProperty_other)
      have inv: "restReplaced ?acc"
        using less.prems(2) same by (simp add: restReplaced_def)
      have none: "\<forall>y \<in> set (ArgumentStream_rest s2). \<not> namedRest kws y"
        using less.prems(3) later by (simp add: rest_Cons [OF Some])
      from less.hyps [OF smaller rec inv none] same show ?thesis by simp
    qed
  qed
qed

text \<open>
  A successful parse of a stream that holds a designator of a keyword named \<open>rest\<close>
  returns, under \<open>rest\<close>, the value recorded for the last such designator.
\<close>

lemma rest_recorded:
  "KeywordParser_loop kws s acc = Returns (Ok b, s') \<Longrightarrow>
   \<exists>y \<in> set (ArgumentStream_rest s). namedRest kws y \<Longrightarrow>
   \<exists>before x after.
     ArgumentStream_rest s = before @ x # after \<and> namedRest kws x
     \<and> (\<forall>y \<in> set after. \<not> namedRest kws y)
     \<and> b ''rest'' = Some (recordedValue after)"
proof (induction "length (source s) - position s" arbitrary: s acc rule: less_induct)
  case less
  show ?case
  proof (cases "peekItem s")
    case None
    with less.prems(2) show ?thesis by (simp add: rest_empty)
  next
    case (Some x)
    let ?s1 = "s\<lparr>position := Suc (position s)\<rparr>"
    note lt = peekItem_Some_less [OF Some]
    note split_rest = rest_Cons [OF Some]
    show ?thesis
    proof (cases "isKeyword x")
      case False
      with less.prems(1) Some obtain xs where
        rec: "KeywordParser_loop kws ?s1 (acc(''rest'' \<mapsto> Items (xs @ [x]))) = Returns (Ok b, s')"
        by (auto simp: loop_item split: option.splits propertyValue.splits)
      from False have "\<not> namedRest kws x" by (simp add: namedRest_def)
      with less.prems(2) have later: "\<exists>y \<in> set (ArgumentStream_rest ?s1). namedRest kws y"
        by (auto simp: split_rest)
      have "length (source ?s1) - position ?s1 < length (source s) - position s"
        using lt by simp
      from less.hyps [OF this rec later] obtain before x' after where
        "ArgumentStream_rest ?s1 = before @ x' # after" "namedRest kws x'"
        "\<forall>y \<in> set after. \<not> namedRest kws y" "b ''rest'' = Some (recordedValue after)"
        by blast
      then have "ArgumentStream_rest s = (x # before) @ x' # after \<and> namedRest kws x'
          \<and> (\<forall>y \<in> set after. \<not> namedRest kws y) \<and> b ''rest'' = Some (recordedValue after)"
        by (simp add: split_rest)
      then show ?thesis by blast
    next
      case True
      from keyword_step [OF Some True less.prems(1)] obtain key s2 pre where
        rec: "KeywordParser_loop kws s2
                (setProperty acc key (recordedValue (ArgumentStream_rest ?s1)))
              = Returns (Ok b, s')"
        and later: "ArgumentStream_rest ?s1 = pre @ ArgumentStream_rest s2"
        and plain: "\<forall>t \<in> set pre. \<not> isKeyword t"
        and smaller: "length (source s2) - position s2 < length (source s) - position s"
        and key: "key = ''rest'' \<longleftrightarrow> namedRest kws x"
        by blast
      from plain have pre: "\<forall>t \<in> set pre. \<not> namedRest kws t"
        by (simp add: namedRest_def)
      show ?thesis
      proof (cases "\<exists>y \<in> set (ArgumentStream_rest s2). namedRest kws y")
        case True
        from less.hyps [OF smaller rec True] obtain before x' after where
          "ArgumentStream_rest s2 = before @ x' # after" "namedRest kws x'"
          "\<forall>y \<in> set after. \<not> namedRest kws y" "b ''rest'' = Some (recordedValue after)"
          by blast
        then have "ArgumentStream_rest s = (x # pre @ before) @ x' # after \<and> namedRest kws x'
            \<and> (\<forall>y \<in> set after. \<not> namedRest kws y) \<and> b ''rest'' = Some (recordedValue after)"
          by (simp add: split_rest later)
        then show ?thesis by blast
      next
        case False
        then have none: "\<forall>y \<in> set (ArgumentStream_rest s2). \<not> namedRest kws y" by simp
        with less.prems(2) pre have x: "namedRest kws x"
          by (auto simp: split_rest later)
        with key have "key = ''rest''" by simp
        with rec have rec': "KeywordParser_loop kws s2
            (acc(''rest'' \<mapsto> recordedValue (ArgumentStream_rest ?s1))) = Returns (Ok b, s')"
          by simp
        from rest_kept [OF rec' restReplaced_recorded none]
        have "b ''rest'' = Some (recordedValue (ArgumentStream_rest ?s1))" by simp
        moreover have "\<forall>y \<in> set (ArgumentStream_rest ?s1). \<not> namedRest kws y"
          using pre none by (auto simp: later)
        ultimately have "ArgumentStream_rest s = [] @ x # ArgumentStream_rest ?s1
            \<and> namedRest kws x \<and> (\<forall>y \<in> set (ArgumentStream_rest ?s1). \<not> namedRest kws y)
            \<and> b ''rest'' = Some (recordedValue (ArgumentStream_rest ?s1))"
          using x by (simp add: split_rest)
        then show ?thesis by blast
      qed
    qed
  qed
qed

text \<open>Leftover tokens in front of a designator are collected into \<open>rest\<close>.\<close>

lemma loop_plain:
  "\<forall>x \<in> set plain. \<not> isKeyword x \<Longrightarrow> acc ''rest'' = Some (Items xs) \<Longrightarrow>
   KeywordParser_loop kws \<lparr>source = consumed @ plain @ after, position = length consumed\<rparr> acc
     = KeywordParser_loop kws
         \<lparr>source = consumed @ plain @ after, position = length consumed + length plain\<rparr>
         (acc(''rest'' \<mapsto> Items (xs @ plain)))"
proof (induction plain arbitrary: consumed acc xs)
  case Nil
  then have "acc(''rest'' \<mapsto> Items xs) = acc" by (simp add: fun_upd_idem)
  then show ?case by simp
next
  case (Cons x plain)
  have "KeywordParser_loop kws
          \<lparr>source = consumed @ (x # plain) @ after, position = length consumed\<rparr> acc
      = KeywordParser_loop kws
          \<lparr>source = (consumed @ [x]) @ plain @ after, position = length (consumed @ [x])\<rparr>
          (acc(''rest'' \<mapsto> Items (xs @ [x])))"
    using Cons.prems by (simp add: loop_item [where x = x])
  also have "\<dots> = KeywordParser_loop kws
          \<lparr>source = (consumed @ [x]) @ plain @ after,
           position = length (consumed @ [x]) + length plain\<rparr>
          ((acc(''rest'' \<mapsto> Items (xs @ [x])))(''rest'' \<mapsto> Items ((xs @ [x]) @ plain)))"
    using Cons.prems by (intro Cons.IH) simp_all
  finally have both: "KeywordParser_loop kws
          \<lparr>source = consumed @ (x # plain) @ after, position = length consumed\<rparr> acc
      = KeywordParser_loop kws
          \<lparr>source = (consumed @ [x]) @ plain @ after,
           position = length (consumed @ [x]) + length plain\<rparr>
          ((acc(''rest'' \<mapsto> Items (xs @ [x])))(''rest'' \<mapsto> Items ((xs @ [x]) @ plain)))" .
  have e1: "(acc(''rest'' \<mapsto> Items (xs @ [x])))(''rest'' \<mapsto> Items ((xs @ [x]) @ plain))
      = acc(''rest'' \<mapsto> Items (xs @ x # plain))"
    by simp
  have e2: "(consumed @ [x]) @ plain @ after = consumed @ (x # plain) @ after"
    by simp
  have e3: "length (consumed @ [x]) + length plain = length consumed + length (x # plain)"
    by simp
  from both show ?case unfolding e1 e2 e3 .
qed

text \<open>
  C10. Let the description declare, under \<open>k\<close>, a keyword whose name is \<open>rest\<close>.
  Whenever the remaining stream holds a designator for \<open>k\<close> and the keyword parser
  returns a success, the \<open>rest\<close> of the returned bundle is the recorded value of a
  designator \<open>x\<close> of a keyword named \<open>rest\<close>, the last one in the stream: the token
  that follows \<open>x\<close>, or \<open>true\<close>; it is not the collection of leftover tokens. And on
  leftover tokens \<open>plain\<close> followed by the designator for \<open>k\<close> and a value \<open>t\<close>, the
  parser succeeds and the bundle it returns is exactly \<open>{rest: t}\<close>: the leftover tokens
  it had collected are gone.
\<close>

theorem keyword_named_rest_replaces_rest:
  assumes "kws k = Some (Description d)" and "name d = ''rest''"
  shows "(Keyword k \<in> set (ArgumentStream_rest itemStream)
            \<and> KeywordParser_parseRest kws itemStream = Returns (Ok returned, stream')
          \<longrightarrow> (\<exists>before x after.
                 ArgumentStream_rest itemStream = before @ x # after
                 \<and> namedRest kws x
                 \<and> (\<forall>y \<in> set after. \<not> namedRest kws y)
                 \<and> returned ''rest'' = Some (recordedValue after)))
       \<and> ((\<forall>x \<in> set plain. \<not> isKeyword x) \<and> \<not> isKeyword t
          \<longrightarrow> KeywordParser_parseRest kws
                 \<lparr>source = consumed @ plain @ [Keyword k, t], position = length consumed\<rparr>
               = Returns (Ok [''rest'' \<mapsto> Item t],
                   \<lparr>source = consumed @ plain @ [Keyword k, t],
                    position = length consumed + length plain + 2\<rparr>))"
proof (intro conjI impI)
  assume a: "Keyword k \<in> set (ArgumentStream_rest itemStream)
            \<and> KeywordParser_parseRest kws itemStream = Returns (Ok returned, stream')"
  have "namedRest kws (Keyword k)"
    using assms by (simp add: namedRest_def)
  with a have occurs: "\<exists>y \<in> set (ArgumentStream_rest itemStream). namedRest kws y"
    by blast
  from a have "KeywordParser_loop kws itemStream [''rest'' \<mapsto> Items []]
      = Returns (Ok returned, stream')"
    by (simp add: KeywordParser_parseRest_def)
  from rest_recorded [OF this occurs]
  show "\<exists>before x after.
          ArgumentStream_rest itemStream = before @ x # after
          \<and> namedRest kws x
          \<and> (\<forall>y \<in> set after. \<not> namedRest kws y)
          \<and> returned ''rest'' = Some (recordedValue after)" .
next
  assume b: "(\<forall>x \<in> set plain. \<not> isKeyword x) \<and> \<not> isKeyword t"
  let ?src = "consumed @ plain @ [Keyword k, t]"
  let ?n = "length consumed + length plain"
  have collect: "KeywordParser_loop kws \<lparr>source = ?src, position = length consumed\<rparr>
        [''rest'' \<mapsto> Items []]
      = KeywordParser_loop kws \<lparr>source = ?src, position = ?n\<rparr> [''rest'' \<mapsto> Items plain]"
    using b loop_plain [where kws = kws and plain = plain and consumed = consumed
        and after = "[Keyword k, t]" and acc = "[''rest'' \<mapsto> Items []]" and xs = "[]"]
    by simp
  have src: "?src = (consumed @ plain) @ Keyword k # [t]" by simp
  have peek: "peekItem \<lparr>source = ?src, position = ?n\<rparr> = Some (Keyword k)"
    unfolding src using peekItem_at [of "consumed @ plain" "Keyword k" "[t]"] by simp
  have peek1: "peekItem \<lparr>source = ?src, position = Suc ?n\<rparr> = Some t"
    unfolding src using peekItem_next [of "consumed @ plain" "Keyword k" "[t]"] by simp
  have peek2: "peekItem \<lparr>source = ?src, position = Suc (Suc ?n)\<rparr> = None"
    by (simp add: peekItem_def)
  have val: "associatedProperty d \<lparr>source = ?src, position = Suc ?n\<rparr>
      = Returns (Ok (Item t), \<lparr>source = ?src, position = Suc (Suc ?n)\<rparr>)"
    using b peek1 by (simp add: associatedProperty_def hasAssociatedItem_def readItem_def)
  have store: "KeywordParser_loop kws \<lparr>source = ?src, position = ?n\<rparr> [''rest'' \<mapsto> Items plain]
      = KeywordParser_loop kws \<lparr>source = ?src, position = Suc (Suc ?n)\<rparr> [''rest'' \<mapsto> Item t]"
    using peek assms val
    by (simp add: loop_keyword [where kws = kws and x = "Keyword k" and d = d])
  have finish: "KeywordParser_loop kws \<lparr>source = ?src, position = Suc (Suc ?n)\<rparr>
        [''rest'' \<mapsto> Item t]
      = Returns (Ok [''rest'' \<mapsto> Item t], \<lparr>source = ?src, position = Suc (Suc ?n)\<rparr>)"
    using peek2 by (rule loop_end)
  show "KeywordParser_parseRest kws \<lparr>source = ?src, position = length consumed\<rparr>
      = Returns (Ok [''rest'' \<mapsto> Item t], \<lparr>source = ?src, position = ?n + 2\<rparr>)"
    unfolding KeywordParser_parseRest_def collect store finish by simp
qed

text \<open>
  The tokens \<open>["spam", "--rest", "x"]\<close>: the leftover token \<open>spam\<close> is collected first
  and lost when \<open>x\<close> is stored under \<open>rest\<close>.
\<close>

theorem keyword_named_rest_replaces_rest_witness:
  "example_rest_keywords ''rest'' = Some (Description example_rest_keyword)
   \<and> name example_rest_keyword = ''rest''
   \<and> Keyword ''rest'' \<in> set (ArgumentStream_rest
         \<lparr>source = [] @ [Str ''spam''] @ [Keyword ''rest'', Str ''x''],
          position = length ([]::readItem list)\<rparr>)
   \<and> list_all (\<lambda>x. \<not> isKeyword x) [Str ''spam'']
   \<and> \<not> isKeyword (Str ''x'')
   \<and> KeywordParser_parseRest example_rest_keywords
         \<lparr>source = [] @ [Str ''spam''] @ [Keyword ''rest'', Str ''x''],
          position = length ([]::readItem list)\<rparr>
       = Returns (Ok [''rest'' \<mapsto> Item (Str ''x'')],
           \<lparr>source = [Str ''spam'', Keyword ''rest'', Str ''x''], position = 3\<rparr>)
   \<and> (\<exists>before x after.
         ArgumentStream_rest
           \<lparr>source = [] @ [Str ''spam''] @ [Keyword ''rest'', Str ''x''],
            position = length ([]::readItem list)\<rparr> = before @ x # after
         \<and> namedRest example_rest_keywords x
         \<and> list_all (\<lambda>y. \<not> namedRest example_rest_keywords y) after
         \<and> [''rest'' \<mapsto> Item (Str ''x'')] ''rest'' = Some (recordedValue after))
   \<and> recordedValue [Str ''x''] = Item (Str ''x'')"
proof -
  let ?s = "\<lparr>source = [] @ [Str ''spam''] @ [Keyword ''rest'', Str ''x''],
          position = length ([]::readItem list)\<rparr>"
  have k: "example_rest_keywords ''rest'' = Some (Description example_rest_keyword)"
    by (simp add: example_defs)
  have n: "name example_rest_keyword = ''rest''"
    by (simp add: example_defs)
  have occ: "Keyword ''rest'' \<in> set (ArgumentStream_rest ?s)"
    by (simp add: ArgumentStream_rest_def)
  have plain: "\<forall>x \<in> set [Str ''spam'']. \<not> isKeyword x" and t: "\<not> isKeyword (Str ''x'')"
    by simp_all
  note inst = keyword_named_rest_replaces_rest [where kws = example_rest_keywords
      and k = "''rest''" and d = example_rest_keyword, OF k n]
  from plain t inst [where plain = "[Str ''spam'']" and t = "Str ''x''" and consumed = "[]"]
  have run: "KeywordParser_parseRest example_rest_keywords ?s
       = Returns (Ok [''rest'' \<mapsto> Item (Str ''x'')],
           \<lparr>source = [Str ''spam'', Keyword ''rest'', Str ''x''], position = 3\<rparr>)"
    by simp
  from occ run inst [where itemStream = ?s and returned = "[''rest'' \<mapsto> Item (Str ''x'')]"]
  have "\<exists>before x after.
         ArgumentStream_rest ?s = before @ x # after
         \<and> namedRest example_rest_keywords x
         \<and> (\<forall>y \<in> set after. \<not> namedRest example_rest_keywords y)
         \<and> [''rest'' \<mapsto> Item (Str ''x'')] ''rest'' = Some (recordedValue after)"
    by blast
  then have last: "\<exists>before x after.
         ArgumentStream_rest ?s = before @ x # after
         \<and> namedRest example_rest_keywords x
         \<and> list_all (\<lambda>y. \<not> namedRest example_rest_keywords y) after
         \<and> [''rest'' \<mapsto> Item (Str ''x'')] ''rest'' = Some (recordedValue after)"
    by (simp add: list_all_iff)
  have v: "recordedValue [Str ''x''] = Item (Str ''x'')"
    by (simp add: recordedValue_def)
  from k n occ t run last v show ?thesis by simp
qed

section \<open>The plain rest parser\<close>

text \<open>
  Where no remaining token is falsy, the plain rest parser collects every remaining token,
  in order, and leaves the stream at its end.
\<close>

lemma RestParser_loop_truthy:
  "\<forall>t \<in> set (ArgumentStream_rest s). truthy t \<Longrightarrow> position s \<le> length (source s) \<Longrightarrow>
   RestParser_loop s items
     = Returns (items @ ArgumentStream_rest s, s\<lparr>position := length (source s)\<rparr>)"
proof (induction "length (source s) - position s" arbitrary: s items rule: less_induct)
  case less
  show ?case
  proof (cases "peekItem s")
    case None
    with less.prems(2) have "position s = length (source s)"
      by (simp add: peekItem_def split: if_splits)
    with None show ?thesis
      by (subst RestParser_loop.simps) (simp add: ArgumentStream_rest_def)
  next
    case (Some x)
    let ?s1 = "s\<lparr>position := Suc (position s)\<rparr>"
    note lt = peekItem_Some_less [OF Some]
    have x: "truthy x" and later: "\<forall>t \<in> set (ArgumentStream_rest ?s1). truthy t"
      using less.prems(1) by (simp_all add: rest_Cons [OF Some])
    have "RestParser_loop ?s1 (items @ [x])
        = Returns ((items @ [x]) @ ArgumentStream_rest ?s1, ?s1\<lparr>position := length (source ?s1)\<rparr>)"
      using lt later by (intro less.hyps) simp_all
    with Some x show ?thesis
      by (subst RestParser_loop.simps) (simp add: readItem_def rest_Cons [OF Some])
  qed
qed

lemma RestParser_collects_truthy:
  "\<forall>t \<in> set (ArgumentStream_rest s). truthy t \<Longrightarrow> position s \<le> length (source s) \<Longrightarrow>
   RestParser_parseRest s
     = Returns (Ok [''rest'' \<mapsto> Items (ArgumentStream_rest s)],
                s\<lparr>position := length (source s)\<rparr>)"
  by (simp add: RestParser_parseRest_def RestParser_loop_truthy)

text \<open>
  C9. The claim: the plain rest parser returns a success whose \<open>rest\<close> holds every
  remaining token, leaving no token behind. The code at the tokens \<open>["a", "", "b"]\<close>:
  the loop tests the truthiness of the peeked token, the empty string is falsy, so the
  loop ends there; \<open>rest\<close> is \<open>["a"]\<close> and two tokens stay in the stream, which stands
  at position 1.
\<close>

theorem RestParser_stops_at_empty_string:
  "RestParser_parseRest (new_ArgumentStream [Str ''a'', Str '''', Str ''b''])
     = Returns (Ok [''rest'' \<mapsto> Items [Str ''a'']],
                \<lparr>source = [Str ''a'', Str '''', Str ''b''], position = 1\<rparr>)
   \<and> ArgumentStream_rest \<lparr>source = [Str ''a'', Str '''', Str ''b''], position = 1\<rparr>
     = [Str '''', Str ''b'']"
  by (simp add: RestParser_parseRest_def RestParser_loop.simps parser_eval
        ArgumentStream_rest_def)

section \<open>The argument-list parser\<close>

lemma immediateArguments_input:
  "makeParseFunction ds rp readItems = Returns (Ok parsed) \<Longrightarrow>
     immediateArguments parsed = readItems"
  by (auto simp: makeParseFunction_def
           split: completion.splits commandResult.splits prod.splits option.splits)

text \<open>
  C3. The claim: on success \<open>immediateArguments\<close> holds exactly one token per positional
  parameter, and no token handed to the rest strategy. The code at one positional
  parameter and the tokens \<open>["alice", "spam"]\<close>: \<open>immediateArguments\<close> is the whole
  input, two tokens, \<open>spam\<close> among them, with the plain rest parser (which collects
  \<open>spam\<close> as well) and with no rest parser.
\<close>

theorem immediateArguments_holds_every_token:
  "makeParseFunction [example_user] (Some RestParser) [Str ''alice'', Str ''spam'']
     = Returns (Ok \<lparr>immediateArguments = [Str ''alice'', Str ''spam''],
                    rest = Some [''rest'' \<mapsto> Items [Str ''spam'']]\<rparr>)
   \<and> makeParseFunction [example_user] None [Str ''alice'', Str ''spam'']
     = Returns (Ok \<lparr>immediateArguments = [Str ''alice'', Str ''spam''], rest = None\<rparr>)"
  by (simp add: makeParseFunction_def RestParser_parseRest_def RestParser_loop.simps
        parser_eval example_defs validator_defs)

lemma for_paramaters_satisfied:
  "list_all2 (\<lambda>p t. isOk (validator (acceptor p) t)) satisfied consumed \<Longrightarrow>
   for_paramaters (satisfied @ ps)
       \<lparr>source = before @ consumed @ after, position = length before\<rparr>
     = for_paramaters ps
       \<lparr>source = before @ consumed @ after, position = length before + length consumed\<rparr>"
proof (induction arbitrary: before rule: list_all2_induct)
  case Nil
  show ?case by simp
next
  case (Cons p satisfied t consumed)
  from Cons.hyps(1) obtain u where ok: "validator (acceptor p) t = Ok u"
    by (cases "validator (acceptor p) t") simp_all
  have "for_paramaters ((p # satisfied) @ ps)
          \<lparr>source = before @ (t # consumed) @ after, position = length before\<rparr>
      = for_paramaters (satisfied @ ps)
          \<lparr>source = (before @ [t]) @ consumed @ after, position = length (before @ [t])\<rparr>"
    by (simp add: ok readItem_def)
  also have "\<dots> = for_paramaters ps
          \<lparr>source = (before @ [t]) @ consumed @ after,
           position = length (before @ [t]) + length consumed\<rparr>"
    by (rule Cons.IH)
  finally show ?case by simp
qed

text \<open>
  C4. Let the first parameters (\<open>satisfied\<close>) be satisfied, each by the token at its
  position (\<open>consumed\<close>), and let \<open>d\<close> be the next parameter. If the stream has no next
  token, parse returns the error that an argument for \<open>d\<close> was expected but not
  provided, bound to \<open>d\<close>. If the next token \<open>t\<close> fails the validator of \<open>d\<close>, parse
  returns an error with the validator's message, bound to \<open>d\<close>. In both cases the
  stream of the error stands at the position of \<open>d\<close>, and the result is the same
  whatever parameters (\<open>later\<close>) and rest parser follow: they are not attempted.
\<close>

theorem parse_fails_at_first_unsatisfied:
  assumes "list_all2 (\<lambda>p t. isOk (validator (acceptor p) t)) satisfied consumed"
  shows "makeParseFunction (satisfied @ d # later) rp consumed
       = Returns (Err \<lparr>message = ''An argument for the paramater '' @ name d
                             @ '' was expected but was not provided.'',
                        paramater = Positional d,
                        stream = \<lparr>source = consumed, position = length consumed\<rparr>\<rparr>)
     \<and> (validator (acceptor d) t = Err e \<longrightarrow>
          makeParseFunction (satisfied @ d # later) rp (consumed @ t # remaining)
            = Returns (Err \<lparr>message = message e,
                             paramater = Positional d,
                             stream = \<lparr>source = consumed @ t # remaining,
                                       position = length consumed\<rparr>\<rparr>))"
proof -
  have run: "for_paramaters (satisfied @ d # later) (new_ArgumentStream (consumed @ after))
      = for_paramaters (d # later) \<lparr>source = consumed @ after, position = length consumed\<rparr>"
    for after
    using for_paramaters_satisfied [OF assms, of "d # later" "[]" after]
    by (simp add: new_ArgumentStream_def)
  have exhausted: "makeParseFunction (satisfied @ d # later) rp consumed
       = Returns (Err \<lparr>message = ''An argument for the paramater '' @ name d
                             @ '' was expected but was not provided.'',
                        paramater = Positional d,
                        stream = \<lparr>source = consumed, position = length consumed\<rparr>\<rparr>)"
    using run [of "[]"] by (simp add: makeParseFunction_def)
  have rejected: "makeParseFunction (satisfied @ d # later) rp (consumed @ t # remaining)
            = Returns (Err \<lparr>message = message e,
                             paramater = Positional d,
                             stream = \<lparr>source = consumed @ t # remaining,
                                       position = length consumed\<rparr>\<rparr>)"
    if "validator (acceptor d) t = Err e"
    using run [of "t # remaining"] that by (simp add: makeParseFunction_def)
  from exhausted rejected show ?thesis by blast
qed

text \<open>
  Two parameters \<open>user\<close> and \<open>server\<close> that accept strings: the tokens \<open>["alice"]\<close>
  leave \<open>server\<close> without a token; in \<open>["alice", "--glob", "spam"]\<close> the keyword
  \<open>glob\<close> fails the validator of \<open>server\<close>.
\<close>

theorem parse_fails_at_first_unsatisfied_witness:
  "list_all2 (\<lambda>p t. isOk (validator (acceptor p) t)) [example_user] [Str ''alice'']
   \<and> makeParseFunction ([example_user] @ example_server # []) (Some RestParser) [Str ''alice'']
       = Returns (Err \<lparr>message =
                          ''An argument for the paramater server was expected but was not provided.'',
                        paramater = Positional example_server,
                        stream = \<lparr>source = [Str ''alice''], position = 1\<rparr>\<rparr>)
   \<and> validator (acceptor example_server) (Keyword ''glob'')
       = Err \<lparr>message =
           ''Was expecting a match for the presentation type: string but got [object Object].''\<rparr>
   \<and> makeParseFunction ([example_user] @ example_server # [example_user]) None
         ([Str ''alice''] @ Keyword ''glob'' # [Str ''spam''])
       = Returns (Err \<lparr>message =
           ''Was expecting a match for the presentation type: string but got [object Object].'',
                        paramater = Positional example_server,
                        stream = \<lparr>source = [Str ''alice'', Keyword ''glob'', Str ''spam''],
                                  position = 1\<rparr>\<rparr>)"
proof -
  have sat: "list_all2 (\<lambda>p t. isOk (validator (acceptor p) t)) [example_user] [Str ''alice'']"
    by (simp add: example_defs validator_defs)
  have rej: "validator (acceptor example_server) (Keyword ''glob'')
       = Err \<lparr>message =
           ''Was expecting a match for the presentation type: string but got [object Object].''\<rparr>"
    by (simp add: example_defs validator_defs)
  show ?thesis
    using sat rej
      parse_fails_at_first_unsatisfied [OF sat, where d = example_server and later = "[]"
        and rp = "Some RestParser"]
      parse_fails_at_first_unsatisfied [OF sat, where d = example_server
        and later = "[example_user]" and rp = None
        and t = "Keyword ''glob''" and remaining = "[Str ''spam'']"]
    by (simp add: example_server_def)
qed

section \<open>The union of validators\<close>

text \<open>
  C6. For every list of validators and every token, the union of the validators succeeds
  on the token if and only if at least one of the validators succeeds on it.
\<close>

theorem union_succeeds_iff:
  "isOk (union_predicates show predicates item)
     \<longleftrightarrow> (\<exists>predicate \<in> set predicates. isOk (predicate item))"
  by (auto simp: union_predicates_def Let_def filter_empty_conv)

text \<open>
  The union of the two registered types accepts the string \<open>alice\<close>, which only the
  type \<open>string\<close> accepts, and rejects a token of another kind, which both reject.
\<close>

theorem union_succeeds_iff_witness:
  "isOk (union_predicates Object_toString
      [validator (Keyword_type Object_toString), validator (string_type Object_toString)]
      (Str ''alice''))
   \<and> \<not> isOk (validator (Keyword_type Object_toString) (Str ''alice''))
   \<and> isOk (validator (string_type Object_toString) (Str ''alice''))
   \<and> \<not> isOk (union_predicates Object_toString
      [validator (Keyword_type Object_toString), validator (string_type Object_toString)]
      (Other ''@alice:example.org''))"
  using union_succeeds_iff [of Object_toString
      "[validator (Keyword_type Object_toString), validator (string_type Object_toString)]"
      "Str ''alice''"]
    union_succeeds_iff [of Object_toString
      "[validator (Keyword_type Object_toString), validator (string_type Object_toString)]"
      "Other ''@alice:example.org''"]
  by (simp add: validator_defs)

text \<open>
  The failure message of the union is built from the branches' results alone; the
  validators carry no type names. So, whatever the string conversion of a result is, a
  presentation type whose validator fails without naming it is not named in the message:
  here a type whose name is longer than the message.
\<close>

lemma String_includes_length: "String_includes m n \<Longrightarrow> length n \<le> length m"
  by (induction m) (auto simp: min_def split: if_splits dest: arg_cong [where f = length])

lemma union_message_without_type_name:
  "\<not> String_includes
       (message (case union_predicates show [\<lambda>item. Err \<lparr>message = []\<rparr>] item of
                   Err e \<Rightarrow> e | Ok _ \<Rightarrow> \<lparr>message = []\<rparr>))
       (replicate (Suc (length (''The argument must match the paramater description ''
           @ show (Err \<lparr>message = []\<rparr>)))) CHR ''x'')"
proof
  assume "String_includes
       (message (case union_predicates show [\<lambda>item. Err \<lparr>message = []\<rparr>] item of
                   Err e \<Rightarrow> e | Ok _ \<Rightarrow> \<lparr>message = []\<rparr>))
       (replicate (Suc (length (''The argument must match the paramater description ''
           @ show (Err \<lparr>message = []\<rparr>)))) CHR ''x'')"
  from String_includes_length [OF this] show False
    by (simp add: union_predicates_def)
qed

text \<open>
  C7. The claim: when every validator rejects the token, the failure of the union carries
  a message that references the name of every attempted presentation type. The code at the
  union of the validators of the types \<open>Keyword\<close> and \<open>UserID\<close>, on the string
  \<open>alice\<close>: the message is the fixed text followed by the string conversion of the
  array of the two result objects. With the conversion of an object whose class declares
  none of its own, that is \<open>[object Object],[object Object]\<close>, and the message includes
  neither type name.
\<close>

theorem union_failure_message:
  "union_predicates show
     [simpleTypeValidator sh ''Keyword'' isKeyword, simpleTypeValidator sh ''UserID'' isOther]
     (Str ''alice'')
   = Err \<lparr>message = ''The argument must match the paramater description ''
        @ show (Err \<lparr>message =
             ''Was expecting a match for the presentation type: Keyword but got alice.''\<rparr>)
        @ '','' @ show (Err \<lparr>message =
             ''Was expecting a match for the presentation type: UserID but got alice.''\<rparr>)\<rparr>
   \<and> union_predicates Object_toString
     [simpleTypeValidator sh ''Keyword'' isKeyword, simpleTypeValidator sh ''UserID'' isOther]
     (Str ''alice'')
   = Err \<lparr>message =
       ''The argument must match the paramater description [object Object],[object Object]''\<rparr>
   \<and> \<not> String_includes
       ''The argument must match the paramater description [object Object],[object Object]''
       ''Keyword''
   \<and> \<not> String_includes
       ''The argument must match the paramater description [object Object],[object Object]''
       ''UserID''"
  by (simp add: union_predicates_def simpleTypeValidator_def Object_toString_def)

section \<open>The registry\<close>

text \<open>
  C8. Registering twice under one name: the first registration under a name \<open>n\<close>
  (one that the registry does not hold yet) returns and inserts the type; a second
  registration under \<open>n\<close> fails, by throwing the \<open>TypeError\<close> that says the name has
  already been registered; the failed attempt leaves the registry as it was, and looking
  \<open>n\<close> up still returns the first type.
\<close>

theorem register_twice:
  assumes "PRESENTATION_TYPES n = None"
  shows "registerPresentationType n v1 PRESENTATION_TYPES
           = (Returns (), PRESENTATION_TYPES(n \<mapsto> v1))
       \<and> registerPresentationType n v2 (PRESENTATION_TYPES(n \<mapsto> v1))
           = (Throws (TypeError (''presentation type with the name: '' @ n
                        @ '' has already been registered'')), PRESENTATION_TYPES(n \<mapsto> v1))
       \<and> findPresentationType n
            (snd (registerPresentationType n v2
               (snd (registerPresentationType n v1 PRESENTATION_TYPES))))
           = Returns v1"
  using assms by (simp add: registerPresentationType_def findPresentationType_def)

text \<open>
  The module's own registry, which holds \<open>Keyword\<close> and \<open>string\<close>; the name
  \<open>UserID\<close> is registered twice.
\<close>

theorem register_twice_witness:
  "module_PRESENTATION_TYPES Object_toString ''UserID'' = None
   \<and> registerPresentationType ''UserID'' example_UserID
        (module_PRESENTATION_TYPES Object_toString)
      = (Returns (),
         (module_PRESENTATION_TYPES Object_toString)(''UserID'' \<mapsto> example_UserID))
   \<and> registerPresentationType ''UserID'' (string_type Object_toString)
        ((module_PRESENTATION_TYPES Object_toString)(''UserID'' \<mapsto> example_UserID))
      = (Throws (TypeError
           ''presentation type with the name: UserID has already been registered''),
         (module_PRESENTATION_TYPES Object_toString)(''UserID'' \<mapsto> example_UserID))
   \<and> findPresentationType ''UserID''
        (snd (registerPresentationType ''UserID'' (string_type Object_toString)
          (snd (registerPresentationType ''UserID'' example_UserID
            (module_PRESENTATION_TYPES Object_toString)))))
      = Returns example_UserID"
proof -
  have fresh: "module_PRESENTATION_TYPES Object_toString ''UserID'' = None"
    by (simp add: module_PRESENTATION_TYPES_def makePresentationType_def
          registerPresentationType_def string_type_def Keyword_type_def)
  show ?thesis
    using fresh
      register_twice [where PRESENTATION_TYPES = "module_PRESENTATION_TYPES Object_toString"
        and n = "''UserID''" and ?v1.0 = example_UserID
        and ?v2.0 = "string_type Object_toString"]
    by auto
qed

end
